theory Spec2Isabelle
  imports Main "HOL-Library.Sublist" "HOL-Library.AList"
begin

section \<open>JavaScript values\<close>

text \<open>
  The loader of \<^verbatim>\<open>src/js/cms-loader.js\<close> handles values it never looks into: what the
  YAML deserialiser returns, the records it builds from them, the arrays it caches. They
  are modelled as terms of one datatype. An object is the list of its own enumerable
  properties in the order they were created; a property read takes the first pair with
  the key. Numbers are the integers and NaN: the loader only ever asks whether a value is
  falsy, and a double is falsy exactly when it is zero or NaN. A \<open>char\<close> stands for one
  code unit of a JavaScript string.
\<close>

datatype jsval =
    JUndefined
  | JNull
  | JBool bool
  | JNum int
  | JNaN
  | JStr string
  | JArr "jsval list"
  | JObj "(string \<times> jsval) list"

text \<open>ToBoolean: what \<^verbatim>\<open>if (v)\<close> and \<^verbatim>\<open>!v\<close> test.\<close>

fun truthy :: "jsval \<Rightarrow> bool" where
  "truthy JUndefined = False"
| "truthy JNull = False"
| "truthy (JBool b) = b"
| "truthy (JNum n) = (n \<noteq> 0)"
| "truthy JNaN = False"
| "truthy (JStr s) = (s \<noteq> [])"
| "truthy (JArr xs) = True"
| "truthy (JObj ps) = True"

section \<open>The world outside the loader\<close>

text \<open>
  What the browser and the two CDN libraries answer is a parameter of every operation.
  \<open>clock\<close> gives the successive readings of \<^verbatim>\<open>Date.now()\<close> (the n-th call reads
  \<open>clock n\<close>; nothing is assumed about them, not even that they grow). \<open>http\<close> is what
  \<^verbatim>\<open>fetch(path)\<close> followed by \<^verbatim>\<open>response.text()\<close> gives, \<open>links\<close> the text of the
  anchors the DOM parser finds in a directory index, \<open>jsyaml_load\<close> the deserialiser
  (\<open>None\<close> when it throws, which is also what an unloaded library does), and \<open>marked\<close> the
  Markdown renderer (\<open>None\<close> when the library is undefined, and a function that returns
  \<open>None\<close> where it throws).
\<close>

datatype response = NetworkError | Response bool string

record env =
  clock :: "nat \<Rightarrow> int"
  http :: "string \<Rightarrow> response"
  links :: "string \<Rightarrow> string list"
  jsyaml_load :: "string \<Rightarrow> jsval option"
  marked :: "(string \<Rightarrow> string option) option"

section \<open>The loader object and its cache\<close>

record cache_entry =
  data :: jsval
  timestamp :: int

text \<open>
  The fields of \<^verbatim>\<open>CMSLoader\<close> that change: the cache, an object used as a dictionary
  from key to entry. Every key the loader forms contains a colon, so none is a property
  that a plain object inherits, and the dictionary is a partial map. \<open>ticks\<close> counts the
  readings of the clock taken so far and \<open>requests\<close> lists the paths handed to
  \<^verbatim>\<open>fetch\<close>, oldest first; both are bookkeeping of the model.
\<close>

record loader =
  cache :: "string \<rightharpoonup> cache_entry"
  ticks :: nat
  requests :: "string list"

definition constructor :: loader where
  "constructor = \<lparr>cache = Map.empty, ticks = 0, requests = []\<rparr>"

definition cacheTime :: int where
  "cacheTime = 5 * 60 * 1000"

definition baseUrl :: string where
  "baseUrl = ''/content/''"

definition getCached :: "env \<Rightarrow> loader \<Rightarrow> string \<Rightarrow> jsval \<times> loader" where
  "getCached e st key =
     (case cache st key of
        None \<Rightarrow> (JNull, st)
      | Some item \<Rightarrow>
          (let age = clock e (ticks st) - timestamp item;
               st1 = st\<lparr>ticks := Suc (ticks st)\<rparr>
           in if age > cacheTime
              then (JNull, st1\<lparr>cache := (cache st)(key := None)\<rparr>)
              else (data item, st1)))"

definition setCached :: "env \<Rightarrow> loader \<Rightarrow> string \<Rightarrow> jsval \<Rightarrow> loader" where
  "setCached e st key d =
     st\<lparr>cache := (cache st)(key \<mapsto> \<lparr>data = d, timestamp = clock e (ticks st)\<rparr>),
        ticks := Suc (ticks st)\<rparr>"

definition clearCache :: "loader \<Rightarrow> loader" where
  "clearCache st = st\<lparr>cache := Map.empty\<rparr>"

section \<open>Strings\<close>

text \<open>
  \<open>split_at d s\<close> cuts \<open>s\<close> at the leftmost occurrence of \<open>d\<close> and gives what stands
  before and after it. \<^verbatim>\<open>s.replace(pat, rep)\<close> with a string pattern replaces that
  leftmost occurrence only, and leaves \<open>s\<close> alone when there is none.
\<close>

fun split_at :: "string \<Rightarrow> string \<Rightarrow> (string \<times> string) option" where
  "split_at d [] = (if d = [] then Some ([], []) else None)"
| "split_at d (x # xs) =
     (if prefix d (x # xs) then Some ([], drop (length d) (x # xs))
      else map_option (\<lambda>(a, b). (x # a, b)) (split_at d xs))"

definition js_replace :: "string \<Rightarrow> string \<Rightarrow> string \<Rightarrow> string" where
  "js_replace pat rep s = (case split_at pat s of None \<Rightarrow> s | Some (a, b) \<Rightarrow> a @ rep @ b)"

definition endsWith :: "string \<Rightarrow> string \<Rightarrow> bool" where
  "endsWith s suf = suffix suf s"

text \<open>The decimal numeral of an array index, as a property key.\<close>

fun decimal :: "nat \<Rightarrow> string" where
  "decimal n =
     (if n < 10 then [''0123456789'' ! n]
      else decimal (n div 10) @ [''0123456789'' ! (n mod 10)])"

declare decimal.simps [simp del]

section \<open>Objects\<close>

fun indexed :: "nat \<Rightarrow> jsval list \<Rightarrow> (string \<times> jsval) list" where
  "indexed i [] = []"
| "indexed i (x # xs) = (decimal i, x) # indexed (Suc i) xs"

text \<open>
  The own enumerable properties that \<^verbatim>\<open>{...v}\<close> copies: those of an object, the
  elements of an array and the code units of a string under their indices, and none for
  undefined, null, a boolean or a number.
\<close>

fun spread :: "jsval \<Rightarrow> (string \<times> jsval) list" where
  "spread (JObj ps) = ps"
| "spread (JArr xs) = indexed 0 xs"
| "spread (JStr s) = indexed 0 (map (\<lambda>c. JStr [c]) s)"
| "spread v = []"

text \<open>
  A property read \<^verbatim>\<open>v.k\<close> for a key \<open>k\<close> that no prototype defines (the loader reads
  \<^verbatim>\<open>active\<close> only): the own property of an object, undefined on anything else.
\<close>

fun get_prop :: "jsval \<Rightarrow> string \<Rightarrow> jsval" where
  "get_prop (JObj ps) k = (case map_of ps k of None \<Rightarrow> JUndefined | Some v \<Rightarrow> v)"
| "get_prop v k = JUndefined"

section \<open>Fetcher\<close>

definition fetchFile :: "env \<Rightarrow> string \<Rightarrow> string option" where
  "fetchFile e path =
     (case http e path of
        NetworkError \<Rightarrow> None
      | Response ok text \<Rightarrow> if \<not> ok then None else Some text)"

definition listFiles :: "env \<Rightarrow> string \<Rightarrow> string list" where
  "listFiles e dirPath =
     (case http e dirPath of
        NetworkError \<Rightarrow> []
      | Response ok text \<Rightarrow> if \<not> ok then [] else links e text)"

section \<open>Frontmatter parser and Markdown renderer\<close>

text \<open>
  The regular expression \<^verbatim>\<open>/^---\n([\s\S]*?)\n---\n([\s\S]*)$/\<close> has no flags: it
  matches the whole input, which must start with the opening line; the lazy first group
  ends at the leftmost closing line that follows, and the second group is the rest.
\<close>

definition match_frontmatter :: "string \<Rightarrow> (string \<times> string) option" where
  "match_frontmatter content =
     (if prefix ''---\<newline>'' content
      then split_at ''\<newline>---\<newline>'' (drop 4 content)
      else None)"

record parsed =
  frontmatter :: jsval
  body :: string
  error :: jsval

definition parseFrontmatter :: "env \<Rightarrow> string \<Rightarrow> parsed" where
  "parseFrontmatter e content =
     (case match_frontmatter content of
        None \<Rightarrow>
          \<lparr>frontmatter = JObj [], body = content,
           error = JStr ''Invalid frontmatter format''\<rparr>
      | Some (frontmatterContent, bodyContent) \<Rightarrow>
          \<lparr>frontmatter =
             (case jsyaml_load e frontmatterContent of None \<Rightarrow> JObj [] | Some v \<Rightarrow> v),
           body = bodyContent,
           error = JNull\<rparr>)"

definition parseMarkdown :: "env \<Rightarrow> string \<Rightarrow> string" where
  "parseMarkdown e content =
     (case marked e of
        None \<Rightarrow> content
      | Some render \<Rightarrow> (case render content of None \<Rightarrow> content | Some html \<Rightarrow> html))"

section \<open>Content loader\<close>

text \<open>
  An \<^verbatim>\<open>async\<close> function runs without interruption up to its first \<^verbatim>\<open>await\<close> that
  has to wait, and again from there once the awaited value is there. \<open>loadContent\<close>
  waits once, for \<^verbatim>\<open>fetchFile\<close>: \<open>loadContent_start\<close> is the code before (the cache
  read, and the request that is sent on a miss), \<open>loadContent_finish\<close> the code after.
  A call on its own runs one after the other; \<open>loadCollection\<close> starts all its calls
  before any of them resumes.
\<close>

datatype promise = Resolved jsval | Pending

definition loadContent_start :: "env \<Rightarrow> loader \<Rightarrow> string \<Rightarrow> string \<Rightarrow> promise \<times> loader" where
  "loadContent_start e st collection slug =
     (let cacheKey = collection @ '':'' @ slug;
          (cached, st1) = getCached e st cacheKey
      in if truthy cached then (Resolved cached, st1)
         else (let filePath = baseUrl @ collection @ ''/'' @ slug @ ''.md''
               in (Pending, st1\<lparr>requests := requests st1 @ [filePath]\<rparr>)))"

definition loadContent_finish :: "env \<Rightarrow> loader \<Rightarrow> string \<Rightarrow> string \<Rightarrow> jsval \<times> loader" where
  "loadContent_finish e st collection slug =
     (let cacheKey = collection @ '':'' @ slug;
          filePath = baseUrl @ collection @ ''/'' @ slug @ ''.md''
      in case fetchFile e filePath of
           None \<Rightarrow> (JNull, st)
         | Some content \<Rightarrow>
             if content = [] then (JNull, st)
             else (let p = parseFrontmatter e content
                   in if truthy (error p) then (JNull, st)
                      else (let htmlBody = parseMarkdown e (body p);
                                result = JObj
                                  (AList.update ''slug'' (JStr slug)
                                  (AList.update ''collection'' (JStr collection)
                                  (AList.update ''rawBody'' (JStr (body p))
                                  (AList.update ''body'' (JStr htmlBody)
                                  (spread (frontmatter p))))))
                            in (result, setCached e st cacheKey result))))"

definition loadContent :: "env \<Rightarrow> loader \<Rightarrow> string \<Rightarrow> string \<Rightarrow> jsval \<times> loader" where
  "loadContent e st collection slug =
     (case loadContent_start e st collection slug of
        (Resolved v, st1) \<Rightarrow> (v, st1)
      | (Pending, st1) \<Rightarrow> loadContent_finish e st1 collection slug)"

text \<open>
  \<^verbatim>\<open>files.filter(...).map(file => this.loadContent(collection, slug))\<close> starts one call
  per kept file, in the order of the listing; \<^verbatim>\<open>Promise.allSettled\<close> then waits until
  every one has resumed and returned. Each resumption runs without interruption. The
  browser resumes the calls in the order the responses arrive; the model takes the order
  of the listing. The outcomes come back in the order of the listing either way.
\<close>

fun start_all :: "env \<Rightarrow> loader \<Rightarrow> string \<Rightarrow> string list \<Rightarrow> (string \<times> promise) list \<times> loader" where
  "start_all e st collection [] = ([], st)"
| "start_all e st collection (slug # slugs) =
     (let (p, st1) = loadContent_start e st collection slug;
          (ps, st2) = start_all e st1 collection slugs
      in ((slug, p) # ps, st2))"

datatype settled = Fulfilled jsval | Rejected

fun allSettled :: "env \<Rightarrow> loader \<Rightarrow> string \<Rightarrow> (string \<times> promise) list \<Rightarrow> settled list \<times> loader" where
  "allSettled e st collection [] = ([], st)"
| "allSettled e st collection ((slug, Resolved v) # ps) =
     (let (rs, st1) = allSettled e st collection ps in (Fulfilled v # rs, st1))"
| "allSettled e st collection ((slug, Pending) # ps) =
     (let (v, st1) = loadContent_finish e st collection slug;
          (rs, st2) = allSettled e st1 collection ps
      in (Fulfilled v # rs, st2))"

fun fulfilled_truthy :: "settled \<Rightarrow> bool" where
  "fulfilled_truthy (Fulfilled v) = truthy v"
| "fulfilled_truthy Rejected = False"

fun settled_value :: "settled \<Rightarrow> jsval" where
  "settled_value (Fulfilled v) = v"
| "settled_value Rejected = JUndefined"

definition slug_of :: "string \<Rightarrow> string" where
  "slug_of file = js_replace ''.md'' [] file"

definition loadCollection :: "env \<Rightarrow> loader \<Rightarrow> string \<Rightarrow> jsval \<times> loader" where
  "loadCollection e st collection =
     (let cacheKey = ''collection:'' @ collection;
          (cached, st1) = getCached e st cacheKey
      in if truthy cached then (cached, st1)
         else (let dirPath = baseUrl @ collection @ ''/'';
                   files = listFiles e dirPath;
                   st2 = st1\<lparr>requests := requests st1 @ [dirPath]\<rparr>;
                   (promises, st3) =
                     start_all e st2 collection
                       (map slug_of (filter (\<lambda>file. endsWith file ''.md'') files));
                   (results, st4) = allSettled e st3 collection promises;
                   items =
                     filter (\<lambda>item. get_prop item ''active'' \<noteq> JBool False)
                       (map settled_value (filter fulfilled_truthy results))
               in (JArr items, setCached e st4 cacheKey (JArr items))))"

definition loadSettings :: "env \<Rightarrow> loader \<Rightarrow> jsval \<times> loader" where
  "loadSettings e st =
     (let cacheKey = ''settings:global'';
          (cached, st1) = getCached e st cacheKey
      in if truthy cached then (cached, st1)
         else (let filePath = baseUrl @ ''settings/global.yml'';
                   st2 = st1\<lparr>requests := requests st1 @ [filePath]\<rparr>
               in case fetchFile e filePath of
                    None \<Rightarrow> (JNull, st2)
                  | Some content \<Rightarrow>
                      if content = [] then (JNull, st2)
                      else (let settings =
                                  (case jsyaml_load e content of None \<Rightarrow> JObj [] | Some v \<Rightarrow> v)
                            in (settings, setCached e st2 cacheKey settings))))"

section \<open>Notions used in the statements\<close>

text \<open>
  A key has a live entry when a read of it now would give the caller something to
  return: there is an entry, its age is within the TTL, and its value passes the test
  \<^verbatim>\<open>if (cached)\<close> that each operation makes.
\<close>

definition live :: "env \<Rightarrow> loader \<Rightarrow> string \<Rightarrow> bool" where
  "live e st key =
     (case cache st key of
        None \<Rightarrow> False
      | Some item \<Rightarrow> clock e (ticks st) - timestamp item \<le> cacheTime \<and> truthy (data item))"

text \<open>
  A key has an expired entry when a read of it now would evict it: there is an entry and
  its age exceeds the TTL.
\<close>

definition expired :: "env \<Rightarrow> loader \<Rightarrow> string \<Rightarrow> bool" where
  "expired e st key =
     (case cache st key of
        None \<Rightarrow> False
      | Some item \<Rightarrow> clock e (ticks st) - timestamp item > cacheTime)"

section \<open>A sample site\<close>

text \<open>
  A concrete world on which the statements below are run: a deserialiser that knows four
  blocks and throws on every other, a renderer that wraps its input in a paragraph, a
  directory index with seven entries, and documents that are well formed, hidden,
  missing or malformed. The clock always reads \<open>t\<close>.
\<close>

definition toy_yaml :: "string \<Rightarrow> jsval option" where
  "toy_yaml s =
     (if s = ''title: Hello'' then Some (JObj [(''title'', JStr ''Hello'')])
      else if s = ''active: false'' then Some (JObj [(''active'', JBool False)])
      else if s = ''active: true'' then Some (JObj [(''active'', JBool True)])
      else if s = ''slug: mine'' then Some (JObj [(''slug'', JStr ''mine''), (''n'', JNum 1)])
      else None)"

definition sample_site :: "string \<Rightarrow> response" where
  "sample_site path =
     (if path = ''/content/docs/'' then Response True ''index''
      else if path = ''/content/docs/a.md'' then
        Response True ''---\<newline>active: false\<newline>---\<newline>A''
      else if path = ''/content/docs/b.md'' then
        Response True ''---\<newline>title: Hello\<newline>---\<newline>Body text''
      else if path = ''/content/docs/c.md'' then Response False ''Not Found''
      else if path = ''/content/docs/d.md'' then Response True ''no frontmatter''
      else if path = ''/content/docs/e.md'' then
        Response True ''---\<newline>slug: mine\<newline>---\<newline>E''
      else if path = ''/content/docs/f.md'' then
        Response True ''---\<newline>active: true\<newline>---\<newline>F''
      else if path = ''/content/empty/x.md'' then Response True []
      else if path = ''/content/settings/global.yml'' then Response True ''title: [''
      else NetworkError)"

definition sample_links :: "string \<Rightarrow> string list" where
  "sample_links text =
     (if text = ''index''
      then [''a.md'', ''b.md'', ''c.md'', ''d.md'', ''e.md'', ''f.md'', ''readme.txt'']
      else [])"

definition toy_marked :: "string \<Rightarrow> string option" where
  "toy_marked s = Some (''<p>'' @ s @ ''</p>'')"

definition sample_env :: "int \<Rightarrow> env" where
  "sample_env t =
     \<lparr>clock = (\<lambda>n. t), http = sample_site, links = sample_links,
      jsyaml_load = toy_yaml, marked = Some toy_marked\<rparr>"

definition stale_loader :: loader where
  "stale_loader =
     \<lparr>cache = [''docs:c'' \<mapsto> \<lparr>data = JObj [], timestamp = 0\<rparr>], ticks = 0, requests = []\<rparr>"

section \<open>Leftmost occurrences\<close>

lemma split_at_Some: "split_at d s = Some (a, b) \<Longrightarrow> s = a @ d @ b"
proof (induction s arbitrary: a)
  case Nil then show ?case by (auto split: if_splits)
next
  case (Cons x xs)
  show ?case
  proof (cases "prefix d (x # xs)")
    case True
    with Cons.prems have "a = []" "b = drop (length d) (x # xs)" by auto
    moreover from True have "x # xs = d @ drop (length d) (x # xs)"
      by (auto simp: prefix_def)
    ultimately show ?thesis by simp
  next
    case False
    with Cons.prems obtain a' where "split_at d xs = Some (a', b)" "a = x # a'" by auto
    with Cons.IH show ?thesis by auto
  qed
qed

lemma split_at_least: "split_at d s = Some (a, b) \<Longrightarrow> s = a' @ d @ b' \<Longrightarrow> length a \<le> length a'"
proof (induction s arbitrary: a a')
  case Nil then show ?case by (auto split: if_splits)
next
  case (Cons x xs)
  show ?case
  proof (cases "prefix d (x # xs)")
    case True
    with Cons.prems(1) have "a = []" by auto
    then show ?thesis by simp
  next
    case False
    with Cons.prems(1) obtain a0 where a0: "split_at d xs = Some (a0, b)" "a = x # a0" by auto
    from False Cons.prems(2) have "a' \<noteq> []" by (auto simp: prefix_def)
    then obtain a1 where a1: "a' = x # a1" using Cons.prems(2) by (cases a') auto
    with Cons.prems(2) have "xs = a1 @ d @ b'" by simp
    from Cons.IH[OF a0(1) this] a0 a1 show ?thesis by simp
  qed
qed

lemma split_at_None: "split_at d s = None \<Longrightarrow> s \<noteq> a @ d @ b"
proof (induction s arbitrary: a)
  case Nil then show ?case by (auto split: if_splits)
next
  case (Cons x xs)
  from Cons.prems have np: "\<not> prefix d (x # xs)" and r: "split_at d xs = None"
    by (auto split: if_splits)
  show ?case
  proof
    assume eq: "x # xs = a @ d @ b"
    with np have "a \<noteq> []" by (auto simp: prefix_def)
    then obtain a1 where "a = x # a1" using eq by (cases a) auto
    with eq have "xs = a1 @ d @ b" by simp
    with Cons.IH[OF r] show False by blast
  qed
qed

section \<open>Cache reads\<close>

lemma getCached_truthy: "truthy (fst (getCached e st key)) = live e st key"
  by (auto simp: getCached_def live_def Let_def split: option.splits)

lemma getCached_requests: "requests (snd (getCached e st key)) = requests st"
  by (simp add: getCached_def Let_def split: option.splits)

lemma getCached_cache:
  "cache (snd (getCached e st key)) = (if expired e st key then (cache st)(key := None) else cache st)"
  by (simp add: getCached_def expired_def Let_def split: option.splits)

lemma getCached_cache_up:
  "cache (snd (getCached e st key)) k = Some item \<Longrightarrow> cache st k = Some item"
  by (auto simp: getCached_cache split: if_splits)

lemma getCached_live:
  "live e st key \<Longrightarrow>
     \<exists>item. cache st key = Some item \<and> truthy (data item)
          \<and> getCached e st key = (data item, st\<lparr>ticks := Suc (ticks st)\<rparr>)"
  by (auto simp: getCached_def live_def Let_def split: option.splits)

lemma not_live_after_read: "\<not> live e st key \<Longrightarrow> \<not> live e' (snd (getCached e st key)) key"
  by (auto simp: getCached_def live_def Let_def split: option.splits)

lemma not_live_constructor: "\<not> live e constructor key"
  by (simp add: live_def constructor_def)

lemma getCached_http: "getCached (e\<lparr>http := h\<rparr>) st key = getCached e st key"
  by (simp add: getCached_def cong: option.case_cong)

text \<open>
  C1. A read of a key that has an entry computes the entry's age, the clock reading minus
  the stored timestamp. When the age exceeds the TTL of 300000 ms the read returns null
  and the entry is gone from the cache afterwards, every other entry staying; when the
  age is at most the TTL the read returns the stored value itself and the cache is the
  one it was. Values are immutable terms here, so returning the stored object with no
  copy is returning the stored term.
\<close>

theorem getCached_ttl:
  assumes "cache st key = Some item"
  shows "(clock e (ticks st) - timestamp item > 300000 \<longrightarrow>
            fst (getCached e st key) = JNull
          \<and> cache (snd (getCached e st key)) = (cache st)(key := None))
       \<and> (clock e (ticks st) - timestamp item \<le> 300000 \<longrightarrow>
            fst (getCached e st key) = data item
          \<and> cache (snd (getCached e st key)) = cache st)"
  using assms by (simp add: getCached_def cacheTime_def Let_def)

theorem getCached_ttl_witness:
  "fst (getCached (sample_env 300001) stale_loader ''docs:c'') = JNull
 \<and> cache (snd (getCached (sample_env 300001) stale_loader ''docs:c'')) = (cache stale_loader)(''docs:c'' := None)
 \<and> fst (getCached (sample_env 300000) stale_loader ''docs:c'') = JObj []
 \<and> cache (snd (getCached (sample_env 300000) stale_loader ''docs:c'')) = cache stale_loader"
proof -
  have c: "cache stale_loader ''docs:c'' = Some \<lparr>data = JObj [], timestamp = 0\<rparr>"
    by (simp add: stale_loader_def)
  have old: "clock (sample_env 300001) (ticks stale_loader)
               - timestamp \<lparr>data = JObj [], timestamp = 0\<rparr> > 300000"
    by (simp add: sample_env_def)
  have fresh: "clock (sample_env 300000) (ticks stale_loader)
               - timestamp \<lparr>data = JObj [], timestamp = 0\<rparr> \<le> 300000"
    by (simp add: sample_env_def)
  from getCached_ttl[OF c, of "sample_env 300001"] old
       getCached_ttl[OF c, of "sample_env 300000"] fresh
  show ?thesis by simp
qed

section \<open>Frontmatter\<close>

text \<open>
  The pattern matches exactly the inputs that can be cut into the opening line, a block,
  a closing line and a rest, and the block it captures is the shortest one.
\<close>

lemma match_frontmatter_None:
  "match_frontmatter content = None \<longleftrightarrow>
     (\<nexists>block rest. content = ''---\<newline>'' @ block @ ''\<newline>---\<newline>'' @ rest)"
proof
  assume n: "match_frontmatter content = None"
  show "\<nexists>block rest. content = ''---\<newline>'' @ block @ ''\<newline>---\<newline>'' @ rest"
  proof
    assume "\<exists>block rest. content = ''---\<newline>'' @ block @ ''\<newline>---\<newline>'' @ rest"
    then obtain block rest where c: "content = ''---\<newline>'' @ block @ ''\<newline>---\<newline>'' @ rest"
      by blast
    then have p: "prefix ''---\<newline>'' content" by simp
    from c have d: "drop 4 content = block @ ''\<newline>---\<newline>'' @ rest" by simp
    from n p have "split_at ''\<newline>---\<newline>'' (drop 4 content) = None"
      by (simp add: match_frontmatter_def)
    from split_at_None[OF this] d show False by blast
  qed
next
  assume a: "\<nexists>block rest. content = ''---\<newline>'' @ block @ ''\<newline>---\<newline>'' @ rest"
  show "match_frontmatter content = None"
  proof (cases "match_frontmatter content")
    case None then show ?thesis .
  next
    case (Some r)
    obtain block rest where r: "r = (block, rest)" by (cases r)
    from Some r have p: "prefix ''---\<newline>'' content"
      and s: "split_at ''\<newline>---\<newline>'' (drop 4 content) = Some (block, rest)"
      by (auto simp: match_frontmatter_def split: if_splits)
    from p have "content = ''---\<newline>'' @ drop 4 content"
      by (auto simp: prefix_def)
    with split_at_Some[OF s] a show ?thesis by metis
  qed
qed


lemma match_frontmatter_Some:
  assumes c: "content = ''---\<newline>'' @ block @ ''\<newline>---\<newline>'' @ rest"
    and least: "\<And>block' rest'. content = ''---\<newline>'' @ block' @ ''\<newline>---\<newline>'' @ rest'
                  \<Longrightarrow> length block \<le> length block'"
  shows "match_frontmatter content = Some (block, rest)"
proof -
  from c have d: "drop 4 content = block @ ''\<newline>---\<newline>'' @ rest" by simp
  from c have p: "prefix ''---\<newline>'' content" by simp
  from split_at_None[of "''\<newline>---\<newline>''" "drop 4 content" block rest] d
  obtain a b where s: "split_at ''\<newline>---\<newline>'' (drop 4 content) = Some (a, b)"
    by (cases "split_at ''\<newline>---\<newline>'' (drop 4 content)") auto
  from split_at_Some[OF s] have ab: "drop 4 content = a @ ''\<newline>---\<newline>'' @ b" .
  from split_at_least[OF s d] have "length a \<le> length block" .
  moreover from p ab have "content = ''---\<newline>'' @ a @ ''\<newline>---\<newline>'' @ b"
    by (auto simp: prefix_def)
  from least[OF this] have "length block \<le> length a" .
  ultimately have "length a = length block" by simp
  with ab d have "a = block" "b = rest" by auto
  with s p show ?thesis by (simp add: match_frontmatter_def)
qed

text \<open>
  C2. For every input string: (a) when the input is not an opening \<open>---\<close> line, a block,
  a closing \<open>---\<close> line and a rest, the parser returns the empty mapping, the whole input
  as body and the error "Invalid frontmatter format"; (b) when it is, with the block as
  short as can be, the parser returns what the deserialiser makes of the block (the empty
  mapping where the deserialiser throws), the rest as body and no error. In particular
  the document made of the three lines \<open>---\<close>, \<open>title: Hello\<close>, \<open>---\<close> and the text
  \<open>Body text\<close> yields the body "Body text" and, under a deserialiser that reads the
  block as the mapping of \<open>title\<close> to "Hello", that mapping as frontmatter.
\<close>

theorem parseFrontmatter_cases:
  "((\<nexists>block rest. content = ''---\<newline>'' @ block @ ''\<newline>---\<newline>'' @ rest) \<longrightarrow>
      parseFrontmatter e content =
        \<lparr>frontmatter = JObj [], body = content, error = JStr ''Invalid frontmatter format''\<rparr>)
 \<and> (\<forall>block rest.
        content = ''---\<newline>'' @ block @ ''\<newline>---\<newline>'' @ rest
      \<and> (\<forall>block' rest'. content = ''---\<newline>'' @ block' @ ''\<newline>---\<newline>'' @ rest'
             \<longrightarrow> length block \<le> length block') \<longrightarrow>
      parseFrontmatter e content =
        \<lparr>frontmatter = (case jsyaml_load e block of None \<Rightarrow> JObj [] | Some v \<Rightarrow> v),
         body = rest, error = JNull\<rparr>)
 \<and> (jsyaml_load e ''title: Hello'' = Some (JObj [(''title'', JStr ''Hello'')]) \<longrightarrow>
      parseFrontmatter e ''---\<newline>title: Hello\<newline>---\<newline>Body text'' =
        \<lparr>frontmatter = JObj [(''title'', JStr ''Hello'')], body = ''Body text'', error = JNull\<rparr>)"
proof (intro conjI impI allI)
  assume "\<nexists>block rest. content = ''---\<newline>'' @ block @ ''\<newline>---\<newline>'' @ rest"
  then have "match_frontmatter content = None" using match_frontmatter_None by blast
  then show "parseFrontmatter e content =
        \<lparr>frontmatter = JObj [], body = content, error = JStr ''Invalid frontmatter format''\<rparr>"
    by (simp add: parseFrontmatter_def)
next
  fix block rest
  assume a: "content = ''---\<newline>'' @ block @ ''\<newline>---\<newline>'' @ rest
      \<and> (\<forall>block' rest'. content = ''---\<newline>'' @ block' @ ''\<newline>---\<newline>'' @ rest'
             \<longrightarrow> length block \<le> length block')"
  then have "match_frontmatter content = Some (block, rest)"
    by (intro match_frontmatter_Some) blast+
  then show "parseFrontmatter e content =
        \<lparr>frontmatter = (case jsyaml_load e block of None \<Rightarrow> JObj [] | Some v \<Rightarrow> v),
         body = rest, error = JNull\<rparr>"
    by (simp add: parseFrontmatter_def)
next
  assume y: "jsyaml_load e ''title: Hello'' = Some (JObj [(''title'', JStr ''Hello'')])"
  have "match_frontmatter ''---\<newline>title: Hello\<newline>---\<newline>Body text''
          = Some (''title: Hello'', ''Body text'')"
    by code_simp
  with y show "parseFrontmatter e ''---\<newline>title: Hello\<newline>---\<newline>Body text'' =
        \<lparr>frontmatter = JObj [(''title'', JStr ''Hello'')], body = ''Body text'', error = JNull\<rparr>"
    by (simp add: parseFrontmatter_def)
qed

theorem parseFrontmatter_cases_witness:
  "parseFrontmatter (sample_env 0) ''no frontmatter'' =
     \<lparr>frontmatter = JObj [], body = ''no frontmatter'',
      error = JStr ''Invalid frontmatter format''\<rparr>
 \<and> parseFrontmatter (sample_env 0) ''---\<newline>x\<newline>---\<newline>y\<newline>---\<newline>z'' =
     \<lparr>frontmatter = JObj [], body = ''y\<newline>---\<newline>z'', error = JNull\<rparr>
 \<and> parseFrontmatter (sample_env 0) ''---\<newline>title: Hello\<newline>---\<newline>Body text'' =
     \<lparr>frontmatter = JObj [(''title'', JStr ''Hello'')], body = ''Body text'', error = JNull\<rparr>"
proof -
  have n: "\<nexists>block rest. ''no frontmatter'' = ''---\<newline>'' @ block @ ''\<newline>---\<newline>'' @ rest"
    by simp
  have m: "''---\<newline>x\<newline>---\<newline>y\<newline>---\<newline>z''
             = ''---\<newline>'' @ ''x'' @ ''\<newline>---\<newline>'' @ ''y\<newline>---\<newline>z''
         \<and> (\<forall>block' rest'. ''---\<newline>x\<newline>---\<newline>y\<newline>---\<newline>z''
               = ''---\<newline>'' @ block' @ ''\<newline>---\<newline>'' @ rest'
             \<longrightarrow> length ''x'' \<le> length block')"
    by (auto simp: Cons_eq_append_conv)
  have y: "jsyaml_load (sample_env 0) ''title: Hello'' = Some (JObj [(''title'', JStr ''Hello'')])"
    by (simp add: sample_env_def toy_yaml_def)
  have x: "jsyaml_load (sample_env 0) ''x'' = None"
    by (simp add: sample_env_def toy_yaml_def)
  note t = parseFrontmatter_cases
  have a: "parseFrontmatter (sample_env 0) ''no frontmatter'' =
     \<lparr>frontmatter = JObj [], body = ''no frontmatter'',
      error = JStr ''Invalid frontmatter format''\<rparr>"
    by (rule t[of "''no frontmatter''" "sample_env 0", THEN conjunct1, THEN mp, OF n])
  have "parseFrontmatter (sample_env 0) ''---\<newline>x\<newline>---\<newline>y\<newline>---\<newline>z'' =
     \<lparr>frontmatter = (case jsyaml_load (sample_env 0) ''x'' of None \<Rightarrow> JObj [] | Some v \<Rightarrow> v),
      body = ''y\<newline>---\<newline>z'', error = JNull\<rparr>"
    by (rule t[of "''---\<newline>x\<newline>---\<newline>y\<newline>---\<newline>z''" "sample_env 0",
          THEN conjunct2, THEN conjunct1, rule_format, OF m])
  with x have b: "parseFrontmatter (sample_env 0) ''---\<newline>x\<newline>---\<newline>y\<newline>---\<newline>z'' =
     \<lparr>frontmatter = JObj [], body = ''y\<newline>---\<newline>z'', error = JNull\<rparr>"
    by simp
  have c: "parseFrontmatter (sample_env 0) ''---\<newline>title: Hello\<newline>---\<newline>Body text'' =
     \<lparr>frontmatter = JObj [(''title'', JStr ''Hello'')], body = ''Body text'', error = JNull\<rparr>"
    by (rule t[of "[]" "sample_env 0", THEN conjunct2, THEN conjunct2, THEN mp, OF y])
  from a b c show ?thesis by blast
qed

section \<open>Single documents\<close>

text \<open>
  What the two halves of \<open>loadContent\<close> do on a hit, on a miss, on a failure and on a
  success. The value a resumed call returns does not depend on the cache, so it is the
  value \<open>loadContent\<close> returns on a loader that has just been constructed.
\<close>

lemma loadContent_start_miss:
  "\<not> live e st (collection @ '':'' @ slug) \<Longrightarrow>
     loadContent_start e st collection slug =
       (Pending, (snd (getCached e st (collection @ '':'' @ slug)))
          \<lparr>requests := requests st @ [baseUrl @ collection @ ''/'' @ slug @ ''.md'']\<rparr>)"
  by (simp add: loadContent_start_def Let_def case_prod_beta getCached_truthy getCached_requests)

lemma loadContent_start_hit:
  "live e st (collection @ '':'' @ slug) \<Longrightarrow>
     \<exists>item. cache st (collection @ '':'' @ slug) = Some item \<and> truthy (data item)
        \<and> loadContent_start e st collection slug = (Resolved (data item), st\<lparr>ticks := Suc (ticks st)\<rparr>)"
  by (drule getCached_live[where e = e]) (auto simp: loadContent_start_def Let_def)

lemma loadContent_start_promise:
  "fst (loadContent_start e st collection slug) = Pending
   \<or> (\<exists>item. cache st (collection @ '':'' @ slug) = Some item \<and> truthy (data item)
         \<and> fst (loadContent_start e st collection slug) = Resolved (data item))"
proof (cases "live e st (collection @ '':'' @ slug)")
  case True
  from loadContent_start_hit[OF this] show ?thesis by auto
next
  case False
  then show ?thesis by (simp add: loadContent_start_miss)
qed

lemma loadContent_start_cache_le:
  "cache (snd (loadContent_start e st collection slug)) \<subseteq>\<^sub>m cache st"
  by (auto simp: loadContent_start_def Let_def case_prod_beta getCached_cache map_le_def)

lemma loadContent_finish_failure:
  assumes "fetchFile e (baseUrl @ collection @ ''/'' @ slug @ ''.md'') = None
         \<or> (\<exists>content. fetchFile e (baseUrl @ collection @ ''/'' @ slug @ ''.md'') = Some content
                \<and> (content = [] \<or> truthy (error (parseFrontmatter e content))))"
  shows "loadContent_finish e st collection slug = (JNull, st)"
  using assms by (auto simp: loadContent_finish_def Let_def)

lemma loadContent_finish_success:
  assumes "fetchFile e (baseUrl @ collection @ ''/'' @ slug @ ''.md'') = Some content"
    and "content \<noteq> []" and "\<not> truthy (error (parseFrontmatter e content))"
  shows "loadContent_finish e st collection slug =
     (let p = parseFrontmatter e content;
          result = JObj
            (AList.update ''slug'' (JStr slug)
            (AList.update ''collection'' (JStr collection)
            (AList.update ''rawBody'' (JStr (body p))
            (AList.update ''body'' (JStr (parseMarkdown e (body p)))
            (spread (frontmatter p))))))
      in (result, setCached e st (collection @ '':'' @ slug) result))"
  using assms by (simp add: loadContent_finish_def Let_def)

lemma loadContent_finish_value:
  "fst (loadContent_finish e st collection slug) = fst (loadContent_finish e st' collection slug)"
  by (simp add: loadContent_finish_def Let_def split: option.splits)

lemma loadContent_finish_requests:
  "requests (snd (loadContent_finish e st collection slug)) = requests st"
  by (simp add: loadContent_finish_def Let_def setCached_def split: option.splits)

lemma loadContent_finish_null:
  "fst (loadContent_finish e st collection slug) = JNull \<Longrightarrow>
     snd (loadContent_finish e st collection slug) = st"
  by (auto simp: loadContent_finish_def Let_def split: option.splits if_splits)

lemma loadContent_miss:
  "\<not> live e st (collection @ '':'' @ slug) \<Longrightarrow>
     loadContent e st collection slug =
       loadContent_finish e
         ((snd (getCached e st (collection @ '':'' @ slug)))
            \<lparr>requests := requests st @ [baseUrl @ collection @ ''/'' @ slug @ ''.md'']\<rparr>)
         collection slug"
  by (simp add: loadContent_def loadContent_start_miss)

lemma loadContent_fresh_value:
  "fst (loadContent e constructor collection slug) = fst (loadContent_finish e st collection slug)"
  unfolding loadContent_miss[OF not_live_constructor] by (rule loadContent_finish_value)

lemma loadContent_miss_requests:
  "\<not> live e st (collection @ '':'' @ slug) \<Longrightarrow>
     requests (snd (loadContent e st collection slug)) =
       requests st @ [baseUrl @ collection @ ''/'' @ slug @ ''.md'']"
  by (simp add: loadContent_miss loadContent_finish_requests)

lemma loadContent_failure:
  assumes miss: "\<not> live e st (collection @ '':'' @ slug)"
    and fail: "fetchFile e (baseUrl @ collection @ ''/'' @ slug @ ''.md'') = None
         \<or> (\<exists>content. fetchFile e (baseUrl @ collection @ ''/'' @ slug @ ''.md'') = Some content
                \<and> (content = [] \<or> truthy (error (parseFrontmatter e content))))"
  shows "loadContent e st collection slug =
           (JNull, (snd (getCached e st (collection @ '':'' @ slug)))
              \<lparr>requests := requests st @ [baseUrl @ collection @ ''/'' @ slug @ ''.md'']\<rparr>)"
  by (simp only: loadContent_miss[OF miss] loadContent_finish_failure[OF fail])

lemma not_live_after_failure:
  assumes miss: "\<not> live e st (collection @ '':'' @ slug)"
    and fail: "fetchFile e (baseUrl @ collection @ ''/'' @ slug @ ''.md'') = None
         \<or> (\<exists>content. fetchFile e (baseUrl @ collection @ ''/'' @ slug @ ''.md'') = Some content
                \<and> (content = [] \<or> truthy (error (parseFrontmatter e content))))"
  shows "\<not> live e' (snd (loadContent e st collection slug)) (collection @ '':'' @ slug)"
  using not_live_after_read[OF miss, of e']
  by (auto simp: loadContent_failure[OF miss fail] live_def split: option.splits)

lemma loadContent_null_not_cached:
  assumes "fst (loadContent e st collection slug) = JNull"
  shows "cache (snd (loadContent e st collection slug)) =
           (if expired e st (collection @ '':'' @ slug)
            then (cache st)(collection @ '':'' @ slug := None) else cache st)"
proof (cases "live e st (collection @ '':'' @ slug)")
  case True
  from loadContent_start_hit[OF True] have "truthy (fst (loadContent e st collection slug))"
    by (auto simp: loadContent_def)
  with assms show ?thesis by simp
next
  case False
  let ?st1 = "(snd (getCached e st (collection @ '':'' @ slug)))
            \<lparr>requests := requests st @ [baseUrl @ collection @ ''/'' @ slug @ ''.md'']\<rparr>"
  from assms have "fst (loadContent_finish e ?st1 collection slug) = JNull"
    by (simp only: loadContent_miss[OF False])
  from loadContent_finish_null[OF this] have "snd (loadContent e st collection slug) = ?st1"
    by (simp only: loadContent_miss[OF False])
  then show ?thesis by (simp add: getCached_cache)
qed

lemma loadContent_success:
  assumes miss: "\<not> live e st (collection @ '':'' @ slug)"
    and fetched: "fetchFile e (baseUrl @ collection @ ''/'' @ slug @ ''.md'') = Some content"
    and nonempty: "content \<noteq> []"
    and wellformed: "\<not> truthy (error (parseFrontmatter e content))"
  shows "fst (loadContent e st collection slug) =
           JObj (AList.update ''slug'' (JStr slug)
                (AList.update ''collection'' (JStr collection)
                (AList.update ''rawBody'' (JStr (body (parseFrontmatter e content)))
                (AList.update ''body'' (JStr (parseMarkdown e (body (parseFrontmatter e content))))
                (spread (frontmatter (parseFrontmatter e content)))))))"
  by (simp add: loadContent_miss[OF miss]
        loadContent_finish_success[OF fetched nonempty wellformed] Let_def)

lemma loadContent_success_active:
  assumes miss: "\<not> live e st (collection @ '':'' @ slug)"
    and fetched: "fetchFile e (baseUrl @ collection @ ''/'' @ slug @ ''.md'') = Some content"
    and nonempty: "content \<noteq> []"
    and wellformed: "\<not> truthy (error (parseFrontmatter e content))"
  shows "truthy (fst (loadContent e st collection slug))"
    and "get_prop (fst (loadContent e st collection slug)) ''active'' =
           get_prop (JObj (spread (frontmatter (parseFrontmatter e content)))) ''active''"
  by (simp_all add: loadContent_success[OF assms] update_conv')

lemma update_keys_prefix: "prefix (map fst al) (map fst (AList.update k v al))"
  by (simp add: update_keys)

text \<open>
  C3, as amended. For every collection and slug with no live cache entry, if the fetch
  fails or the fetched document fails frontmatter format parsing, \<open>loadContent\<close> returns
  null and writes no entry: the cache is left as the initial read left it, that is
  unchanged except that an entry under that key whose age exceeds the TTL has been
  evicted. The call sends one request for the document, and a subsequent call sends the
  request again, whatever the world is then.
\<close>

theorem loadContent_failure_not_cached:
  assumes miss: "\<not> live e st (collection @ '':'' @ slug)"
    and fail: "fetchFile e (baseUrl @ collection @ ''/'' @ slug @ ''.md'') = None
         \<or> (\<exists>content. fetchFile e (baseUrl @ collection @ ''/'' @ slug @ ''.md'') = Some content
                \<and> truthy (error (parseFrontmatter e content)))"
  shows "fst (loadContent e st collection slug) = JNull
       \<and> cache (snd (loadContent e st collection slug)) =
           (if expired e st (collection @ '':'' @ slug)
            then (cache st)(collection @ '':'' @ slug := None) else cache st)
       \<and> requests (snd (loadContent e st collection slug)) =
           requests st @ [baseUrl @ collection @ ''/'' @ slug @ ''.md'']
       \<and> (\<forall>e'. requests (snd (loadContent e' (snd (loadContent e st collection slug)) collection slug)) =
           requests (snd (loadContent e st collection slug)) @ [baseUrl @ collection @ ''/'' @ slug @ ''.md''])"
proof -
  from fail have fail': "fetchFile e (baseUrl @ collection @ ''/'' @ slug @ ''.md'') = None
         \<or> (\<exists>content. fetchFile e (baseUrl @ collection @ ''/'' @ slug @ ''.md'') = Some content
                \<and> (content = [] \<or> truthy (error (parseFrontmatter e content))))"
    by blast
  note r = loadContent_failure[OF miss fail']
  have a: "fst (loadContent e st collection slug) = JNull"
    by (simp add: r)
  have b: "cache (snd (loadContent e st collection slug)) =
           (if expired e st (collection @ '':'' @ slug)
            then (cache st)(collection @ '':'' @ slug := None) else cache st)"
    by (simp add: r getCached_cache)
  have c: "requests (snd (loadContent e st collection slug)) =
           requests st @ [baseUrl @ collection @ ''/'' @ slug @ ''.md'']"
    by (rule loadContent_miss_requests[OF miss])
  have d: "requests (snd (loadContent e' (snd (loadContent e st collection slug)) collection slug)) =
           requests (snd (loadContent e st collection slug)) @ [baseUrl @ collection @ ''/'' @ slug @ ''.md'']" for e'
    by (rule loadContent_miss_requests[OF not_live_after_failure[OF miss fail']])
  from a b c d show ?thesis by blast
qed

theorem loadContent_failure_not_cached_witness:
  "fst (loadContent (sample_env 300001) stale_loader ''docs'' ''c'') = JNull
 \<and> cache (snd (loadContent (sample_env 300001) stale_loader ''docs'' ''c'')) =
       (cache stale_loader)(''docs:c'' := None)
 \<and> requests (snd (loadContent (sample_env 300001) stale_loader ''docs'' ''c'')) =
       [''/content/docs/c.md'']
 \<and> requests (snd (loadContent (sample_env 300002)
         (snd (loadContent (sample_env 300001) stale_loader ''docs'' ''c'')) ''docs'' ''c'')) =
       [''/content/docs/c.md'', ''/content/docs/c.md'']
 \<and> fst (loadContent (sample_env 0) constructor ''docs'' ''d'') = JNull
 \<and> cache (snd (loadContent (sample_env 0) constructor ''docs'' ''d'')) = cache constructor"
proof -
  have m: "\<not> live (sample_env 300001) stale_loader (''docs'' @ '':'' @ ''c'')"
    by (simp add: live_def stale_loader_def sample_env_def cacheTime_def)
  have f: "fetchFile (sample_env 300001) (baseUrl @ ''docs'' @ ''/'' @ ''c'' @ ''.md'') = None
         \<or> (\<exists>content. fetchFile (sample_env 300001) (baseUrl @ ''docs'' @ ''/'' @ ''c'' @ ''.md'') = Some content
                \<and> truthy (error (parseFrontmatter (sample_env 300001) content)))"
    by (simp add: fetchFile_def sample_env_def sample_site_def baseUrl_def)
  have x: "expired (sample_env 300001) stale_loader (''docs'' @ '':'' @ ''c'')"
    by (simp add: expired_def stale_loader_def sample_env_def cacheTime_def)
  have m': "\<not> live (sample_env 0) constructor (''docs'' @ '':'' @ ''d'')"
    by (simp add: live_def constructor_def)
  have "match_frontmatter ''no frontmatter'' = None"
    by code_simp
  then have f': "fetchFile (sample_env 0) (baseUrl @ ''docs'' @ ''/'' @ ''d'' @ ''.md'') = None
         \<or> (\<exists>content. fetchFile (sample_env 0) (baseUrl @ ''docs'' @ ''/'' @ ''d'' @ ''.md'') = Some content
                \<and> truthy (error (parseFrontmatter (sample_env 0) content)))"
    by (simp add: fetchFile_def sample_env_def sample_site_def baseUrl_def parseFrontmatter_def)
  have x': "\<not> expired (sample_env 0) constructor (''docs'' @ '':'' @ ''d'')"
    by (simp add: expired_def constructor_def)
  have r: "requests stale_loader = []"
    by (simp add: stale_loader_def)
  from loadContent_failure_not_cached[OF m f] loadContent_failure_not_cached[OF m' f'] x x' r
  show ?thesis by (simp add: baseUrl_def)
qed

text \<open>
  C3 as stated has the cache unchanged. With an entry under the key that is older than
  the TTL and a fetch that fails (the server answers 404), there is no live entry, the
  call returns null, and the cache afterwards is not the cache before: the read has
  evicted the entry.
\<close>

theorem loadContent_failure_evicts_stale_entry:
  "\<not> live (sample_env 300001) stale_loader ''docs:c''
 \<and> fetchFile (sample_env 300001) ''/content/docs/c.md'' = None
 \<and> fst (loadContent (sample_env 300001) stale_loader ''docs'' ''c'') = JNull
 \<and> cache (snd (loadContent (sample_env 300001) stale_loader ''docs'' ''c'')) \<noteq> cache stale_loader"
proof -
  have a: "\<not> live (sample_env 300001) stale_loader ''docs:c''"
    by (simp add: live_def stale_loader_def sample_env_def cacheTime_def)
  have b: "fetchFile (sample_env 300001) ''/content/docs/c.md'' = None"
    by (simp add: fetchFile_def sample_env_def sample_site_def)
  have c: "fst (loadContent (sample_env 300001) stale_loader ''docs'' ''c'') = JNull"
    by code_simp
  have "cache (snd (loadContent (sample_env 300001) stale_loader ''docs'' ''c'')) ''docs:c'' = None"
    by code_simp
  moreover have "cache stale_loader ''docs:c'' \<noteq> None"
    by (simp add: stale_loader_def)
  ultimately have d: "cache (snd (loadContent (sample_env 300001) stale_loader ''docs'' ''c'')) \<noteq> cache stale_loader"
    by metis
  from a b c d show ?thesis by blast
qed

text \<open>
  C8. For every document that is loaded successfully (no live entry, a non-empty text
  that parses), the record \<open>loadContent\<close> returns is an object whose keys start with the
  keys of the frontmatter in their order (the frontmatter is copied first), whose
  \<open>body\<close>, \<open>rawBody\<close>, \<open>collection\<close> and \<open>slug\<close> are the rendered body, the unrendered
  body, the collection and the slug, whatever the frontmatter had under those four keys,
  and whose every other key reads as in the frontmatter.
\<close>

theorem loadContent_record_fields:
  assumes miss: "\<not> live e st (collection @ '':'' @ slug)"
    and fetched: "fetchFile e (baseUrl @ collection @ ''/'' @ slug @ ''.md'') = Some content"
    and nonempty: "content \<noteq> []"
    and wellformed: "\<not> truthy (error (parseFrontmatter e content))"
  shows "\<exists>ps. fst (loadContent e st collection slug) = JObj ps
       \<and> prefix (map fst (spread (frontmatter (parseFrontmatter e content)))) (map fst ps)
       \<and> map_of ps ''body'' = Some (JStr (parseMarkdown e (body (parseFrontmatter e content))))
       \<and> map_of ps ''rawBody'' = Some (JStr (body (parseFrontmatter e content)))
       \<and> map_of ps ''collection'' = Some (JStr collection)
       \<and> map_of ps ''slug'' = Some (JStr slug)
       \<and> (\<forall>k. k \<notin> {''body'', ''rawBody'', ''collection'', ''slug''} \<longrightarrow>
             map_of ps k = map_of (spread (frontmatter (parseFrontmatter e content))) k)"
proof -
  let ?p = "parseFrontmatter e content"
  let ?fm = "spread (frontmatter ?p)"
  let ?ps = "AList.update ''slug'' (JStr slug)
            (AList.update ''collection'' (JStr collection)
            (AList.update ''rawBody'' (JStr (body ?p))
            (AList.update ''body'' (JStr (parseMarkdown e (body ?p))) ?fm)))"
  have r: "fst (loadContent e st collection slug) = JObj ?ps"
    by (simp add: loadContent_miss[OF miss]
          loadContent_finish_success[OF fetched nonempty wellformed] Let_def)
  have "prefix (map fst ?fm) (map fst (AList.update ''body'' (JStr (parseMarkdown e (body ?p))) ?fm))"
    by (rule update_keys_prefix)
  also have "prefix \<dots> (map fst (AList.update ''rawBody'' (JStr (body ?p))
            (AList.update ''body'' (JStr (parseMarkdown e (body ?p))) ?fm)))"
    by (rule update_keys_prefix)
  also have "prefix \<dots> (map fst (AList.update ''collection'' (JStr collection)
            (AList.update ''rawBody'' (JStr (body ?p))
            (AList.update ''body'' (JStr (parseMarkdown e (body ?p))) ?fm))))"
    by (rule update_keys_prefix)
  also have "prefix \<dots> (map fst ?ps)"
    by (rule update_keys_prefix)
  finally have k: "prefix (map fst ?fm) (map fst ?ps)" .
  have m: "map_of ?ps = (map_of ?fm)(''body'' \<mapsto> JStr (parseMarkdown e (body ?p)),
              ''rawBody'' \<mapsto> JStr (body ?p), ''collection'' \<mapsto> JStr collection,
              ''slug'' \<mapsto> JStr slug)"
    by (simp only: update_conv')
  have "map_of ?ps ''body'' = Some (JStr (parseMarkdown e (body ?p)))"
       "map_of ?ps ''rawBody'' = Some (JStr (body ?p))"
       "map_of ?ps ''collection'' = Some (JStr collection)"
       "map_of ?ps ''slug'' = Some (JStr slug)"
       "\<forall>k. k \<notin> {''body'', ''rawBody'', ''collection'', ''slug''} \<longrightarrow> map_of ?ps k = map_of ?fm k"
    by (simp_all add: m)
  with r k show ?thesis by blast
qed

theorem loadContent_record_fields_witness:
  "\<exists>ps. fst (loadContent (sample_env 0) constructor ''docs'' ''e'') = JObj ps
       \<and> prefix [''slug'', ''n''] (map fst ps)
       \<and> map_of ps ''body'' = Some (JStr ''<p>E</p>'')
       \<and> map_of ps ''rawBody'' = Some (JStr ''E'')
       \<and> map_of ps ''collection'' = Some (JStr ''docs'')
       \<and> map_of ps ''slug'' = Some (JStr ''e'')
       \<and> map_of ps ''n'' = Some (JNum 1)"
proof -
  have m: "\<not> live (sample_env 0) constructor (''docs'' @ '':'' @ ''e'')"
    by (simp add: live_def constructor_def)
  have f: "fetchFile (sample_env 0) (baseUrl @ ''docs'' @ ''/'' @ ''e'' @ ''.md'')
             = Some ''---\<newline>slug: mine\<newline>---\<newline>E''"
    by (simp add: fetchFile_def sample_env_def sample_site_def baseUrl_def)
  have n: "''---\<newline>slug: mine\<newline>---\<newline>E'' \<noteq> []"
    by simp
  have p: "parseFrontmatter (sample_env 0) ''---\<newline>slug: mine\<newline>---\<newline>E'' =
             \<lparr>frontmatter = JObj [(''slug'', JStr ''mine''), (''n'', JNum 1)], body = ''E'', error = JNull\<rparr>"
    by code_simp
  have w: "\<not> truthy (error (parseFrontmatter (sample_env 0) ''---\<newline>slug: mine\<newline>---\<newline>E''))"
    by (simp add: p)
  have r: "parseMarkdown (sample_env 0) ''E'' = ''<p>E</p>''"
    by (simp add: parseMarkdown_def sample_env_def toy_marked_def)
  from loadContent_record_fields[OF m f n w]
  show ?thesis by (simp add: p r) fastforce
qed

section \<open>Slugs\<close>

text \<open>
  Where \<open>.md\<close> stands in a file name only as its extension, the slug is the name without
  the extension.
\<close>

lemma slug_of_strips_extension:
  assumes "\<forall>a b. stem @ ''.md'' = a @ ''.md'' @ b \<longrightarrow> b = []"
  shows "slug_of (stem @ ''.md'') = stem"
proof -
  have "split_at ''.md'' (stem @ ''.md'') \<noteq> None"
  proof
    assume n: "split_at ''.md'' (stem @ ''.md'') = None"
    from split_at_None[OF n, of stem "[]"] show False by simp
  qed
  then obtain a b where s: "split_at ''.md'' (stem @ ''.md'') = Some (a, b)"
    by (cases "split_at ''.md'' (stem @ ''.md'')") (simp, force)
  from split_at_Some[OF s] have eq: "stem @ ''.md'' = a @ ''.md'' @ b" .
  from assms[rule_format, OF eq] have b: "b = []" .
  from eq have "a = stem" unfolding b by simp
  with s b show ?thesis by (simp add: slug_of_def js_replace_def)
qed

text \<open>
  C4. \<open>loadCollection\<close> keeps the file names that end in \<open>.md\<close> and computes the slug
  with \<^verbatim>\<open>file.replace('.md', '')\<close>, which removes the leftmost \<open>.md\<close>, wherever it
  stands. The listing entry \<open>a.mdb.md\<close> is kept, and its slug is \<open>ab.md\<close>, not the name
  without its extension; the document is then requested at \<open>/content/docs/ab.md.md\<close>.
\<close>

theorem slug_of_inner_extension:
  "endsWith ''a.mdb.md'' ''.md''
 \<and> slug_of ''a.mdb.md'' = ''ab.md''
 \<and> slug_of ''a.mdb.md'' \<noteq> ''a.mdb''
 \<and> baseUrl @ ''docs'' @ ''/'' @ slug_of ''a.mdb.md'' @ ''.md'' = ''/content/docs/ab.md.md''"
  by code_simp

section \<open>Collections\<close>

text \<open>
  The promise of each started call is pending or resolved with a truthy value that the
  cache held under the document's key; the outcome of each settled call is that value, or
  what a load of the document from the network returns.
\<close>

lemma start_all_promises:
  "list_all2
     (\<lambda>slug sp. fst sp = slug
        \<and> (snd sp = Pending
           \<or> (\<exists>item. cache st (collection @ '':'' @ slug) = Some item \<and> truthy (data item)
                 \<and> snd sp = Resolved (data item))))
     slugs (fst (start_all e st collection slugs))"
proof (induction slugs arbitrary: st)
  case Nil
  show ?case by simp
next
  case (Cons slug slugs)
  let ?st1 = "snd (loadContent_start e st collection slug)"
  have le: "cache ?st1 \<subseteq>\<^sub>m cache st"
    by (rule loadContent_start_cache_le)
  have up: "cache ?st1 k = Some item \<Longrightarrow> cache st k = Some item" for k item
    using le by (auto simp: map_le_def dom_def)
  have tl: "list_all2
     (\<lambda>slug sp. fst sp = slug
        \<and> (snd sp = Pending
           \<or> (\<exists>item. cache st (collection @ '':'' @ slug) = Some item \<and> truthy (data item)
                 \<and> snd sp = Resolved (data item))))
     slugs (fst (start_all e ?st1 collection slugs))"
    by (rule list_all2_mono[OF Cons.IH[of ?st1]]) (auto dest: up)
  with loadContent_start_promise[of e st collection slug] show ?case
    by (simp add: case_prod_beta Let_def)
qed

lemma allSettled_values:
  "fst (allSettled e st collection ps) =
     map (\<lambda>sp. Fulfilled (case snd sp of Resolved v \<Rightarrow> v
                          | Pending \<Rightarrow> fst (loadContent e constructor collection (fst sp)))) ps"
proof (induction e st collection ps rule: allSettled.induct)
  case (1 e st collection)
  show ?case by simp
next
  case (2 e st collection slug v ps)
  then show ?case by (simp add: case_prod_beta)
next
  case (3 e st collection slug ps)
  have "fst (allSettled e (snd (loadContent_finish e st collection slug)) collection ps) =
     map (\<lambda>sp. Fulfilled (case snd sp of Resolved v \<Rightarrow> v
                          | Pending \<Rightarrow> fst (loadContent e constructor collection (fst sp)))) ps"
    by (rule "3.IH"[OF refl, of "fst (loadContent_finish e st collection slug)"]) simp
  then show ?case
    by (simp add: case_prod_beta Let_def
          loadContent_fresh_value[of e collection slug st])
qed

lemma settled_values:
  "map settled_value (filter fulfilled_truthy (map (\<lambda>sp. Fulfilled (g sp)) ps)) = filter truthy (map g ps)"
  by (induction ps) auto

lemma loadCollection_miss:
  assumes "\<not> live e st (''collection:'' @ collection)"
  shows "loadCollection e st collection =
    (let st2 = (snd (getCached e st (''collection:'' @ collection)))
                 \<lparr>requests := requests st @ [baseUrl @ collection @ ''/'']\<rparr>;
         started = start_all e st2 collection
                     (map slug_of (filter (\<lambda>file. endsWith file ''.md'')
                        (listFiles e (baseUrl @ collection @ ''/''))));
         results = allSettled e (snd started) collection (fst started);
         items = filter (\<lambda>item. get_prop item ''active'' \<noteq> JBool False)
                   (map settled_value (filter fulfilled_truthy (fst results)))
     in (JArr items, setCached e (snd results) (''collection:'' @ collection) (JArr items)))"
  using assms
  by (simp add: loadCollection_def Let_def case_prod_beta getCached_truthy getCached_requests)

lemma loadCollection_hit:
  assumes "cache st (''collection:'' @ collection) = Some item"
    and "clock e (ticks st) - timestamp item \<le> 300000" and "truthy (data item)"
  shows "loadCollection e st collection = (data item, st\<lparr>ticks := Suc (ticks st)\<rparr>)"
  using assms by (simp add: loadCollection_def getCached_def cacheTime_def Let_def)

lemma loadCollection_outcomes:
  assumes miss: "\<not> live e st (''collection:'' @ collection)"
  shows "\<exists>loaded.
           list_all2
             (\<lambda>file r. r = fst (loadContent e constructor collection (slug_of file))
                \<or> (\<exists>item. cache st (collection @ '':'' @ slug_of file) = Some item
                      \<and> truthy (data item) \<and> r = data item))
             (filter (\<lambda>file. endsWith file ''.md'') (listFiles e (baseUrl @ collection @ ''/'')))
             loaded
         \<and> fst (loadCollection e st collection) =
             JArr (filter (\<lambda>r. truthy r \<and> get_prop r ''active'' \<noteq> JBool False) loaded)"
proof -
  let ?files = "filter (\<lambda>file. endsWith file ''.md'') (listFiles e (baseUrl @ collection @ ''/''))"
  let ?st2 = "(snd (getCached e st (''collection:'' @ collection)))
                 \<lparr>requests := requests st @ [baseUrl @ collection @ ''/'']\<rparr>"
  let ?started = "start_all e ?st2 collection (map slug_of ?files)"
  let ?g = "\<lambda>sp. case snd sp of Resolved v \<Rightarrow> v
                | Pending \<Rightarrow> fst (loadContent e constructor collection (fst sp))"
  let ?loaded = "map ?g (fst ?started)"
  have "list_all2
     (\<lambda>slug sp. fst sp = slug
        \<and> (snd sp = Pending
           \<or> (\<exists>item. cache ?st2 (collection @ '':'' @ slug) = Some item \<and> truthy (data item)
                 \<and> snd sp = Resolved (data item))))
     (map slug_of ?files) (fst ?started)"
    by (rule start_all_promises)
  then have "list_all2
     (\<lambda>slug sp. ?g sp = fst (loadContent e constructor collection slug)
        \<or> (\<exists>item. cache st (collection @ '':'' @ slug) = Some item \<and> truthy (data item)
              \<and> ?g sp = data item))
     (map slug_of ?files) (fst ?started)"
    by (rule list_all2_mono) (auto dest: getCached_cache_up)
  then have rel: "list_all2
             (\<lambda>file r. r = fst (loadContent e constructor collection (slug_of file))
                \<or> (\<exists>item. cache st (collection @ '':'' @ slug_of file) = Some item
                      \<and> truthy (data item) \<and> r = data item))
             ?files ?loaded"
    by (simp add: list_all2_map1 list_all2_map2)
  have "fst (loadCollection e st collection) =
          JArr (filter (\<lambda>item. get_prop item ''active'' \<noteq> JBool False) (filter truthy ?loaded))"
    by (simp add: loadCollection_miss[OF miss] Let_def allSettled_values settled_values)
  then have "fst (loadCollection e st collection) =
             JArr (filter (\<lambda>r. truthy r \<and> get_prop r ''active'' \<noteq> JBool False) ?loaded)"
    by (simp add: conj_commute)
  with rel show ?thesis by blast
qed

text \<open>
  C5. For every collection with no live entry under its own key, \<open>loadCollection\<close>
  returns, in the order of the listing, exactly the outcomes of its \<open>loadContent\<close> calls
  (one per listed file that ends in \<open>.md\<close>; each outcome is what a load of the document
  returns, or a truthy value cached under the document's key) that are not absent and
  whose \<open>active\<close> is not the boolean false: a record with \<open>active\<close> false is left out,
  one with \<open>active\<close> true or with no \<open>active\<close> is kept. \<open>loadContent\<close> itself applies no
  such filter: a document that loads is returned with the \<open>active\<close> its frontmatter has,
  false included.
\<close>

theorem loadCollection_active_filter:
  assumes miss: "\<not> live e st (''collection:'' @ collection)"
  shows "(\<exists>loaded.
           list_all2
             (\<lambda>file r. r = fst (loadContent e constructor collection (slug_of file))
                \<or> (\<exists>item. cache st (collection @ '':'' @ slug_of file) = Some item
                      \<and> truthy (data item) \<and> r = data item))
             (filter (\<lambda>file. endsWith file ''.md'') (listFiles e (baseUrl @ collection @ ''/'')))
             loaded
         \<and> fst (loadCollection e st collection) =
             JArr (filter (\<lambda>r. truthy r \<and> get_prop r ''active'' \<noteq> JBool False) loaded))
       \<and> (\<forall>slug content.
             \<not> live e st (collection @ '':'' @ slug)
           \<and> fetchFile e (baseUrl @ collection @ ''/'' @ slug @ ''.md'') = Some content
           \<and> content \<noteq> [] \<and> \<not> truthy (error (parseFrontmatter e content)) \<longrightarrow>
             truthy (fst (loadContent e st collection slug))
           \<and> get_prop (fst (loadContent e st collection slug)) ''active'' =
               get_prop (JObj (spread (frontmatter (parseFrontmatter e content)))) ''active'')"
  using loadCollection_outcomes[OF miss] loadContent_success_active by blast

theorem loadCollection_active_filter_witness:
  "(\<exists>loaded.
      list_all2
        (\<lambda>file r. r = fst (loadContent (sample_env 0) constructor ''docs'' (slug_of file))
           \<or> (\<exists>item. cache constructor (''docs'' @ '':'' @ slug_of file) = Some item
                 \<and> truthy (data item) \<and> r = data item))
        [''a.md'', ''b.md'', ''c.md'', ''d.md'', ''e.md'', ''f.md''] loaded
    \<and> fst (loadCollection (sample_env 0) constructor ''docs'') =
        JArr (filter (\<lambda>r. truthy r \<and> get_prop r ''active'' \<noteq> JBool False) loaded))
 \<and> truthy (fst (loadContent (sample_env 0) constructor ''docs'' ''a''))
 \<and> get_prop (fst (loadContent (sample_env 0) constructor ''docs'' ''a'')) ''active'' = JBool False
 \<and> fst (loadCollection (sample_env 0) constructor ''docs'') =
      JArr [JObj [(''title'', JStr ''Hello''), (''body'', JStr ''<p>Body text</p>''),
                  (''rawBody'', JStr ''Body text''), (''collection'', JStr ''docs''),
                  (''slug'', JStr ''b'')],
            JObj [(''slug'', JStr ''e''), (''n'', JNum 1), (''body'', JStr ''<p>E</p>''),
                  (''rawBody'', JStr ''E''), (''collection'', JStr ''docs'')],
            JObj [(''active'', JBool True), (''body'', JStr ''<p>F</p>''),
                  (''rawBody'', JStr ''F''), (''collection'', JStr ''docs''),
                  (''slug'', JStr ''f'')]]"
proof -
  have m: "\<not> live (sample_env 0) constructor (''collection:'' @ ''docs'')"
    by (rule not_live_constructor)
  have L: "filter (\<lambda>file. endsWith file ''.md'') (listFiles (sample_env 0) (baseUrl @ ''docs'' @ ''/''))
             = [''a.md'', ''b.md'', ''c.md'', ''d.md'', ''e.md'', ''f.md'']"
    by code_simp
  note t = loadCollection_active_filter[OF m]
  note a = t[THEN conjunct1, unfolded L]
  have h: "\<not> live (sample_env 0) constructor (''docs'' @ '':'' @ ''a'')
         \<and> fetchFile (sample_env 0) (baseUrl @ ''docs'' @ ''/'' @ ''a'' @ ''.md'')
             = Some ''---\<newline>active: false\<newline>---\<newline>A''
         \<and> ''---\<newline>active: false\<newline>---\<newline>A'' \<noteq> []
         \<and> \<not> truthy (error (parseFrontmatter (sample_env 0) ''---\<newline>active: false\<newline>---\<newline>A''))"
    by code_simp
  have v: "get_prop (JObj (spread (frontmatter
              (parseFrontmatter (sample_env 0) ''---\<newline>active: false\<newline>---\<newline>A'')))) ''active''
            = JBool False"
    by code_simp
  from t[THEN conjunct2, rule_format, OF h] v
  have b: "truthy (fst (loadContent (sample_env 0) constructor ''docs'' ''a''))
         \<and> get_prop (fst (loadContent (sample_env 0) constructor ''docs'' ''a'')) ''active'' = JBool False"
    by simp
  have c: "fst (loadCollection (sample_env 0) constructor ''docs'') =
      JArr [JObj [(''title'', JStr ''Hello''), (''body'', JStr ''<p>Body text</p>''),
                  (''rawBody'', JStr ''Body text''), (''collection'', JStr ''docs''),
                  (''slug'', JStr ''b'')],
            JObj [(''slug'', JStr ''e''), (''n'', JNum 1), (''body'', JStr ''<p>E</p>''),
                  (''rawBody'', JStr ''E''), (''collection'', JStr ''docs'')],
            JObj [(''active'', JBool True), (''body'', JStr ''<p>F</p>''),
                  (''rawBody'', JStr ''F''), (''collection'', JStr ''docs''),
                  (''slug'', JStr ''f'')]]"
    by code_simp
  from a b c show ?thesis by (intro conjI) (rule a, simp_all)
qed










text \<open>
  C10. For every collection with no live entry under its own key, \<open>loadCollection\<close>
  stores the sequence it returns under that key, empty or not. In every later state that
  still has that entry, and at every clock reading at most the TTL after the entry's
  timestamp, \<open>loadCollection\<close> returns the stored sequence and changes nothing but the
  count of clock readings: no request is sent, and the entry stays for the next call.
  \<open>loadContent\<close> on the other hand never stores an absent result: when it returns null
  the cache is as the read left it.
\<close>

theorem loadCollection_caches_result:
  assumes miss: "\<not> live e st (''collection:'' @ collection)"
  shows "\<exists>items T.
         fst (loadCollection e st collection) = JArr items
       \<and> cache (snd (loadCollection e st collection)) (''collection:'' @ collection) =
           Some \<lparr>data = JArr items, timestamp = T\<rparr>
       \<and> (\<forall>e' st'.
             cache st' (''collection:'' @ collection) = Some \<lparr>data = JArr items, timestamp = T\<rparr>
           \<and> clock e' (ticks st') - T \<le> 300000 \<longrightarrow>
             loadCollection e' st' collection = (JArr items, st'\<lparr>ticks := Suc (ticks st')\<rparr>))
       \<and> (\<forall>slug. fst (loadContent e st collection slug) = JNull \<longrightarrow>
             cache (snd (loadContent e st collection slug)) =
               (if expired e st (collection @ '':'' @ slug)
                then (cache st)(collection @ '':'' @ slug := None) else cache st))"
proof -
  let ?st2 = "(snd (getCached e st (''collection:'' @ collection)))
                 \<lparr>requests := requests st @ [baseUrl @ collection @ ''/'']\<rparr>"
  let ?started = "start_all e ?st2 collection
                     (map slug_of (filter (\<lambda>file. endsWith file ''.md'')
                        (listFiles e (baseUrl @ collection @ ''/''))))"
  let ?results = "allSettled e (snd ?started) collection (fst ?started)"
  let ?items = "filter (\<lambda>item. get_prop item ''active'' \<noteq> JBool False)
                   (map settled_value (filter fulfilled_truthy (fst ?results)))"
  let ?T = "clock e (ticks (snd ?results))"
  have r: "loadCollection e st collection =
             (JArr ?items, setCached e (snd ?results) (''collection:'' @ collection) (JArr ?items))"
    by (simp add: loadCollection_miss[OF miss] Let_def)
  have a: "fst (loadCollection e st collection) = JArr ?items"
    by (simp add: r)
  have b: "cache (snd (loadCollection e st collection)) (''collection:'' @ collection) =
           Some \<lparr>data = JArr ?items, timestamp = ?T\<rparr>"
    by (simp add: r setCached_def)
  have c: "loadCollection e' st' collection = (JArr ?items, st'\<lparr>ticks := Suc (ticks st')\<rparr>)"
    if "cache st' (''collection:'' @ collection) = Some \<lparr>data = JArr ?items, timestamp = ?T\<rparr>
           \<and> clock e' (ticks st') - ?T \<le> 300000" for e' :: env and st'
    using that loadCollection_hit[of st' collection "\<lparr>data = JArr ?items, timestamp = ?T\<rparr>" e']
    by simp
  have d: "cache (snd (loadContent e st collection slug)) =
               (if expired e st (collection @ '':'' @ slug)
                then (cache st)(collection @ '':'' @ slug := None) else cache st)"
    if "fst (loadContent e st collection slug) = JNull" for slug
    by (rule loadContent_null_not_cached[OF that])
  from a b c d show ?thesis by blast
qed

theorem loadCollection_caches_result_witness:
  "fst (loadCollection (sample_env 0) constructor ''none'') = JArr []
 \<and> cache (snd (loadCollection (sample_env 0) constructor ''none'')) ''collection:none'' =
      Some \<lparr>data = JArr [], timestamp = 0\<rparr>
 \<and> fst (loadCollection (sample_env 300000)
          (snd (loadCollection (sample_env 0) constructor ''none'')) ''none'') = JArr []
 \<and> requests (snd (loadCollection (sample_env 300000)
          (snd (loadCollection (sample_env 0) constructor ''none'')) ''none''))
      = requests (snd (loadCollection (sample_env 0) constructor ''none''))
 \<and> fst (loadContent (sample_env 0) constructor ''docs'' ''c'') = JNull
 \<and> cache (snd (loadContent (sample_env 0) constructor ''docs'' ''c'')) = cache constructor"
proof -
  let ?st1 = "snd (loadCollection (sample_env 0) constructor ''none'')"
  have m: "\<not> live (sample_env 0) constructor (''collection:'' @ ''none'')"
    by (rule not_live_constructor)
  from loadCollection_caches_result[OF m] obtain items T where
    a: "fst (loadCollection (sample_env 0) constructor ''none'') = JArr items"
    and b: "cache ?st1 (''collection:'' @ ''none'') = Some \<lparr>data = JArr items, timestamp = T\<rparr>"
    and c: "\<And>e' st'. cache st' (''collection:'' @ ''none'') = Some \<lparr>data = JArr items, timestamp = T\<rparr>
           \<and> clock e' (ticks st') - T \<le> 300000 \<Longrightarrow>
             loadCollection e' st' ''none'' = (JArr items, st'\<lparr>ticks := Suc (ticks st')\<rparr>)"
    and d: "\<And>slug. fst (loadContent (sample_env 0) constructor ''none'' slug) = JNull \<Longrightarrow>
             cache (snd (loadContent (sample_env 0) constructor ''none'' slug)) =
               (if expired (sample_env 0) constructor (''none'' @ '':'' @ slug)
                then (cache constructor)(''none'' @ '':'' @ slug := None) else cache constructor)"
    by blast
  have v: "fst (loadCollection (sample_env 0) constructor ''none'') = JArr []"
    by code_simp
  with a have items: "items = []" by simp
  have "cache ?st1 ''collection:none'' = Some \<lparr>data = JArr [], timestamp = 0\<rparr>"
    by code_simp
  with b have T: "T = 0" by simp
  have "cache ?st1 (''collection:'' @ ''none'') = Some \<lparr>data = JArr items, timestamp = T\<rparr>
           \<and> clock (sample_env 300000) (ticks ?st1) - T \<le> 300000"
    using b by (simp add: T sample_env_def)
  from c[OF this] have again:
    "loadCollection (sample_env 300000) ?st1 ''none'' = (JArr [], ?st1\<lparr>ticks := Suc (ticks ?st1)\<rparr>)"
    by (simp add: items)
  have n: "fst (loadContent (sample_env 0) constructor ''docs'' ''c'') = JNull"
    by code_simp
  have x: "\<not> expired (sample_env 0) constructor key" for key
    by (simp add: expired_def constructor_def)
  have e: "cache (snd (loadContent (sample_env 0) constructor ''docs'' ''c'')) = cache constructor"
    using loadContent_null_not_cached[OF n] x by simp
  from a b items T again n e show ?thesis by simp
qed

section \<open>Settings\<close>

lemma loadSettings_miss:
  "\<not> live e st ''settings:global'' \<Longrightarrow>
     loadSettings e st =
       (let st2 = (snd (getCached e st ''settings:global''))
                    \<lparr>requests := requests st @ [baseUrl @ ''settings/global.yml'']\<rparr>
        in case fetchFile e (baseUrl @ ''settings/global.yml'') of
             None \<Rightarrow> (JNull, st2)
           | Some content \<Rightarrow>
               if content = [] then (JNull, st2)
               else (let settings = (case jsyaml_load e content of None \<Rightarrow> JObj [] | Some v \<Rightarrow> v)
                     in (settings, setCached e st2 ''settings:global'' settings)))"
  by (simp add: loadSettings_def Let_def case_prod_beta getCached_truthy getCached_requests)

lemma loadSettings_hit:
  "live e st ''settings:global'' \<Longrightarrow>
     \<exists>item. cache st ''settings:global'' = Some item
        \<and> loadSettings e st = (data item, st\<lparr>ticks := Suc (ticks st)\<rparr>)"
  by (drule getCached_live[where e = e]) (auto simp: loadSettings_def Let_def)

text \<open>
  C7. With no live entry for \<open>settings:global\<close>: if the settings file cannot be fetched,
  \<open>loadSettings\<close> returns null; if the file is fetched with a text that the deserialiser
  is run on (a non-empty one) and the deserialiser throws, \<open>loadSettings\<close> returns the
  empty mapping and stores it under the key with the time of the store, so that a call
  within the TTL returns the empty mapping again without a request.
\<close>

theorem loadSettings_failures:
  assumes miss: "\<not> live e st ''settings:global''"
  shows "(fetchFile e (baseUrl @ ''settings/global.yml'') = None \<longrightarrow>
            fst (loadSettings e st) = JNull)
       \<and> (\<forall>content.
            fetchFile e (baseUrl @ ''settings/global.yml'') = Some content
          \<and> content \<noteq> [] \<and> jsyaml_load e content = None \<longrightarrow>
            fst (loadSettings e st) = JObj []
          \<and> cache (snd (loadSettings e st)) ''settings:global'' =
              Some \<lparr>data = JObj [],
                    timestamp = clock e (ticks (snd (getCached e st ''settings:global'')))\<rparr>
          \<and> (\<forall>e'. clock e' (ticks (snd (loadSettings e st)))
                     - clock e (ticks (snd (getCached e st ''settings:global''))) \<le> 300000 \<longrightarrow>
                fst (loadSettings e' (snd (loadSettings e st))) = JObj []
              \<and> requests (snd (loadSettings e' (snd (loadSettings e st))))
                  = requests (snd (loadSettings e st))))"
proof (intro conjI impI allI)
  assume "fetchFile e (baseUrl @ ''settings/global.yml'') = None"
  then show "fst (loadSettings e st) = JNull"
    by (simp add: loadSettings_miss[OF miss])
next
  fix content
  assume a: "fetchFile e (baseUrl @ ''settings/global.yml'') = Some content
          \<and> content \<noteq> [] \<and> jsyaml_load e content = None"
  let ?st2 = "(snd (getCached e st ''settings:global''))
                \<lparr>requests := requests st @ [baseUrl @ ''settings/global.yml'']\<rparr>"
  from a have r: "loadSettings e st = (JObj [], setCached e ?st2 ''settings:global'' (JObj []))"
    by (simp add: loadSettings_miss[OF miss] Let_def)
  show v: "fst (loadSettings e st) = JObj []"
    by (simp add: r)
  show c: "cache (snd (loadSettings e st)) ''settings:global'' =
              Some \<lparr>data = JObj [],
                    timestamp = clock e (ticks (snd (getCached e st ''settings:global'')))\<rparr>"
    by (simp add: r setCached_def)
  fix e' :: env
  assume t: "clock e' (ticks (snd (loadSettings e st)))
               - clock e (ticks (snd (getCached e st ''settings:global''))) \<le> 300000"
  with c have "live e' (snd (loadSettings e st)) ''settings:global''"
    by (simp add: live_def cacheTime_def)
  from loadSettings_hit[OF this] c
  have h: "loadSettings e' (snd (loadSettings e st)) =
             (JObj [], (snd (loadSettings e st))\<lparr>ticks := Suc (ticks (snd (loadSettings e st)))\<rparr>)"
    by auto
  show "fst (loadSettings e' (snd (loadSettings e st))) = JObj []"
    by (simp add: h)
  show "requests (snd (loadSettings e' (snd (loadSettings e st))))
                  = requests (snd (loadSettings e st))"
    by (simp add: h)
qed

theorem loadSettings_failures_witness:
  "fst (loadSettings ((sample_env 0)\<lparr>http := \<lambda>path. NetworkError\<rparr>) constructor) = JNull
 \<and> fst (loadSettings (sample_env 0) constructor) = JObj []
 \<and> cache (snd (loadSettings (sample_env 0) constructor)) ''settings:global'' =
       Some \<lparr>data = JObj [], timestamp = 0\<rparr>
 \<and> fst (loadSettings (sample_env 300000) (snd (loadSettings (sample_env 0) constructor))) = JObj []
 \<and> requests (snd (loadSettings (sample_env 300000) (snd (loadSettings (sample_env 0) constructor))))
      = [''/content/settings/global.yml'']"
proof -
  have m: "\<not> live e constructor ''settings:global''" for e
    by (simp add: live_def constructor_def)
  have f: "fetchFile ((sample_env 0)\<lparr>http := \<lambda>path. NetworkError\<rparr>) (baseUrl @ ''settings/global.yml'') = None"
    by (simp add: fetchFile_def)
  have g: "fetchFile (sample_env 0) (baseUrl @ ''settings/global.yml'') = Some ''title: [''
          \<and> ''title: ['' \<noteq> [] \<and> jsyaml_load (sample_env 0) ''title: ['' = None"
    by (simp add: fetchFile_def sample_env_def sample_site_def baseUrl_def toy_yaml_def)
  have a: "fst (loadSettings ((sample_env 0)\<lparr>http := \<lambda>path. NetworkError\<rparr>) constructor) = JNull"
    by (rule loadSettings_failures[OF m, THEN conjunct1, THEN mp, OF f])
  note b = loadSettings_failures[OF m, THEN conjunct2, rule_format, OF g]
  have r: "requests (snd (loadSettings (sample_env 0) constructor)) = [''/content/settings/global.yml'']"
    by code_simp
  have t: "clock (sample_env 300000) (ticks (snd (loadSettings (sample_env 0) constructor)))
             - clock (sample_env 0) (ticks (snd (getCached (sample_env 0) constructor ''settings:global''))) \<le> 300000"
    by (simp add: sample_env_def)
  have c: "clock (sample_env 0) (ticks (snd (getCached (sample_env 0) constructor ''settings:global''))) = 0"
    by (simp add: sample_env_def)
  from a b[THEN conjunct1] b[THEN conjunct2, THEN conjunct1] b[THEN conjunct2, THEN conjunct2, rule_format, OF t] r c
  show ?thesis by simp
qed

section \<open>Empty responses\<close>

lemma loadContent_empty_text:
  assumes "http e (baseUrl @ collection @ ''/'' @ slug @ ''.md'') = Response True []"
  shows "loadContent e st collection slug =
           loadContent (e\<lparr>http := (http e)(baseUrl @ collection @ ''/'' @ slug @ ''.md'' := NetworkError)\<rparr>)
             st collection slug"
proof -
  let ?path = "baseUrl @ collection @ ''/'' @ slug @ ''.md''"
  let ?e = "e\<lparr>http := (http e)(?path := NetworkError)\<rparr>"
  have s: "loadContent_start ?e st collection slug = loadContent_start e st collection slug"
    by (simp add: loadContent_start_def getCached_http)
  have a: "loadContent_finish e st1 collection slug = (JNull, st1)" for st1
    using assms by (intro loadContent_finish_failure) (simp add: fetchFile_def)
  have b: "loadContent_finish ?e st1 collection slug = (JNull, st1)" for st1
    by (rule loadContent_finish_failure) (simp add: fetchFile_def)
  obtain p st1 where c: "loadContent_start e st collection slug = (p, st1)"
    by (cases "loadContent_start e st collection slug")
  show ?thesis
    unfolding loadContent_def s c by (cases p) (simp_all only: a b prod.case promise.case)
qed

lemma loadSettings_empty_text:
  assumes "http e (baseUrl @ ''settings/global.yml'') = Response True []"
  shows "loadSettings e st =
           loadSettings (e\<lparr>http := (http e)(baseUrl @ ''settings/global.yml'' := NetworkError)\<rparr>) st"
  using assms by (simp add: loadSettings_def getCached_http fetchFile_def Let_def split: prod.splits)

text \<open>
  C9. If the response for a document has the empty string as text, \<open>loadContent\<close>
  returns the same value and leaves the same state as in the world where that request
  fails, and with no live entry it returns null and stores nothing; the same holds for
  \<open>loadSettings\<close> and the settings file.
\<close>

theorem empty_text_like_fetch_failure:
  "(http e (baseUrl @ collection @ ''/'' @ slug @ ''.md'') = Response True [] \<longrightarrow>
      loadContent e st collection slug =
        loadContent (e\<lparr>http := (http e)(baseUrl @ collection @ ''/'' @ slug @ ''.md'' := NetworkError)\<rparr>)
          st collection slug
    \<and> (\<not> live e st (collection @ '':'' @ slug) \<longrightarrow>
          fst (loadContent e st collection slug) = JNull
        \<and> cache (snd (loadContent e st collection slug)) =
            (if expired e st (collection @ '':'' @ slug)
             then (cache st)(collection @ '':'' @ slug := None) else cache st)))
 \<and> (http e (baseUrl @ ''settings/global.yml'') = Response True [] \<longrightarrow>
      loadSettings e st =
        loadSettings (e\<lparr>http := (http e)(baseUrl @ ''settings/global.yml'' := NetworkError)\<rparr>) st
    \<and> (\<not> live e st ''settings:global'' \<longrightarrow>
          fst (loadSettings e st) = JNull
        \<and> cache (snd (loadSettings e st)) =
            (if expired e st ''settings:global''
             then (cache st)(''settings:global'' := None) else cache st)))"
proof (intro conjI impI)
  assume h: "http e (baseUrl @ collection @ ''/'' @ slug @ ''.md'') = Response True []"
  show "loadContent e st collection slug =
        loadContent (e\<lparr>http := (http e)(baseUrl @ collection @ ''/'' @ slug @ ''.md'' := NetworkError)\<rparr>)
          st collection slug"
    by (rule loadContent_empty_text[OF h])
  assume miss: "\<not> live e st (collection @ '':'' @ slug)"
  from h have fail: "fetchFile e (baseUrl @ collection @ ''/'' @ slug @ ''.md'') = None
         \<or> (\<exists>content. fetchFile e (baseUrl @ collection @ ''/'' @ slug @ ''.md'') = Some content
                \<and> (content = [] \<or> truthy (error (parseFrontmatter e content))))"
    by (simp add: fetchFile_def)
  show "fst (loadContent e st collection slug) = JNull"
    by (simp add: loadContent_failure[OF miss fail])
  show "cache (snd (loadContent e st collection slug)) =
            (if expired e st (collection @ '':'' @ slug)
             then (cache st)(collection @ '':'' @ slug := None) else cache st)"
    by (simp add: loadContent_failure[OF miss fail] getCached_cache)
next
  assume h: "http e (baseUrl @ ''settings/global.yml'') = Response True []"
  show "loadSettings e st =
        loadSettings (e\<lparr>http := (http e)(baseUrl @ ''settings/global.yml'' := NetworkError)\<rparr>) st"
    by (rule loadSettings_empty_text[OF h])
  assume miss: "\<not> live e st ''settings:global''"
  from h have f: "fetchFile e (baseUrl @ ''settings/global.yml'') = Some []"
    by (simp add: fetchFile_def)
  show "fst (loadSettings e st) = JNull"
    by (simp add: loadSettings_miss[OF miss] f)
  show "cache (snd (loadSettings e st)) =
            (if expired e st ''settings:global''
             then (cache st)(''settings:global'' := None) else cache st)"
    by (simp add: loadSettings_miss[OF miss] f getCached_cache)
qed

theorem empty_text_like_fetch_failure_witness:
  "loadContent (sample_env 0) constructor ''empty'' ''x'' =
     loadContent ((sample_env 0)\<lparr>http := (http (sample_env 0))(''/content/empty/x.md'' := NetworkError)\<rparr>)
       constructor ''empty'' ''x''
 \<and> fst (loadContent (sample_env 0) constructor ''empty'' ''x'') = JNull
 \<and> cache (snd (loadContent (sample_env 0) constructor ''empty'' ''x'')) = cache constructor
 \<and> loadSettings ((sample_env 0)\<lparr>http := \<lambda>path. Response True []\<rparr>) constructor =
     loadSettings ((sample_env 0)\<lparr>http := (\<lambda>path. Response True [])(''/content/settings/global.yml'' := NetworkError)\<rparr>)
       constructor
 \<and> fst (loadSettings ((sample_env 0)\<lparr>http := \<lambda>path. Response True []\<rparr>) constructor) = JNull
 \<and> cache (snd (loadSettings ((sample_env 0)\<lparr>http := \<lambda>path. Response True []\<rparr>) constructor))
      = cache constructor"
proof -
  have h: "http (sample_env 0) (baseUrl @ ''empty'' @ ''/'' @ ''x'' @ ''.md'') = Response True []"
    by (simp add: sample_env_def sample_site_def baseUrl_def)
  have h': "http ((sample_env 0)\<lparr>http := \<lambda>path. Response True []\<rparr>) (baseUrl @ ''settings/global.yml'')
              = Response True []"
    by simp
  have m: "\<not> live e constructor key" for e key
    by (simp add: live_def constructor_def)
  have x: "\<not> expired e constructor key" for e key
    by (simp add: expired_def constructor_def)
  note t = empty_text_like_fetch_failure
  note c = t[of "sample_env 0" "''empty''" "''x''" constructor, THEN conjunct1, THEN mp, OF h]
  note s = t[of "(sample_env 0)\<lparr>http := \<lambda>path. Response True []\<rparr>" _ _ constructor,
             THEN conjunct2, THEN mp, OF h']
  have c1: "loadContent (sample_env 0) constructor ''empty'' ''x'' =
     loadContent ((sample_env 0)\<lparr>http := (http (sample_env 0))(''/content/empty/x.md'' := NetworkError)\<rparr>)
       constructor ''empty'' ''x''"
    using c[THEN conjunct1] by (simp add: baseUrl_def)
  have c2: "fst (loadContent (sample_env 0) constructor ''empty'' ''x'') = JNull
          \<and> cache (snd (loadContent (sample_env 0) constructor ''empty'' ''x'')) = cache constructor"
    using c[THEN conjunct2] m x by simp
  have s1: "loadSettings ((sample_env 0)\<lparr>http := \<lambda>path. Response True []\<rparr>) constructor =
     loadSettings ((sample_env 0)\<lparr>http := (\<lambda>path. Response True [])(''/content/settings/global.yml'' := NetworkError)\<rparr>)
       constructor"
    using s[THEN conjunct1] by (simp add: baseUrl_def)
  have s2: "fst (loadSettings ((sample_env 0)\<lparr>http := \<lambda>path. Response True []\<rparr>) constructor) = JNull
          \<and> cache (snd (loadSettings ((sample_env 0)\<lparr>http := \<lambda>path. Response True []\<rparr>) constructor))
              = cache constructor"
    using s[THEN conjunct2] m x by simp
  from c1 c2 s1 s2 show ?thesis by blast
qed

end
